theory Spec2Isabelle
  imports Main "HOL-Library.Word"
begin

unbundle bit_operations_syntax

section \<open>The IR keyboard sketch: data model\<close>

text \<open>
  The sketch targets the ATtiny85: \<^verbatim>\<open>unsigned long\<close> (the timestamp type \<^verbatim>\<open>TS\<close>) has
  32 bits, \<^verbatim>\<open>uint16\<close> has 16 and \<^verbatim>\<open>uint8\<close> has 8. All arithmetic on them wraps.
\<close>

type_synonym TS = "32 word"
type_synonym uint8 = "8 word"
type_synonym uint16 = "16 word"

text \<open>
  The timing macros are only ever compared with the 16-bit \<^verbatim>\<open>delta\<close>. On the target
  \<^verbatim>\<open>int\<close> has 16 bits, and for the comparison with the unsigned \<^verbatim>\<open>delta\<close> the
  products of the macros are converted to unsigned 16-bit values; so the macros are given
  the type of \<^verbatim>\<open>delta\<close>, and \<^verbatim>\<open>40*MS\<close> stands for 40000 (as it does where \<^verbatim>\<open>int\<close>
  has 32 bits). The build without \<^verbatim>\<open>DEBUG\<close> is the one modelled.
\<close>

definition MS :: uint16 where "MS = 1000"
definition US :: uint16 where "US = 1"
definition TOLERANCE :: uint16 where "TOLERANCE = 20"
definition PRESS_DELAY :: TS where "PRESS_DELAY = 200"

definition VOL_UP :: uint8 where "VOL_UP = 224"
definition VOL_DOWN :: uint8 where "VOL_DOWN = 208"
definition MUTE :: uint8 where "MUTE = 240"

definition STATE_NEED_START :: uint8 where "STATE_NEED_START = 0"
definition STATE_NEED_START2 :: uint8 where "STATE_NEED_START2 = 1"
definition STATE_DATA :: uint8 where "STATE_DATA = 2"
definition STATE_DATA_READY :: uint8 where "STATE_DATA_READY = 3"

text \<open>The global variables of the sketch, in the order of their declaration.\<close>

record machine =
  lastRead :: TS
  pulseNum :: uint8
  data :: uint8
  state :: uint8
  lastPress :: TS

text \<open>
  The key identifiers of the HID library, and the calls the main loop makes that are
  visible from outside, in program order.
\<close>

datatype mmkey = MMKEY_VOL_UP | MMKEY_VOL_DOWN | MMKEY_MUTE

datatype event = HidPress mmkey | DecoderReset | HidPoll

section \<open>The operations\<close>

text \<open>\<^verbatim>\<open>reset()\<close>: the timestamp first, then \<^verbatim>\<open>data = pulseNum = 0\<close>, then the state.\<close>

definition reset :: "machine \<Rightarrow> machine" where
  "reset s = s\<lparr>lastRead := 0, pulseNum := 0, data := 0, state := STATE_NEED_START\<rparr>"

text \<open>
  \<^verbatim>\<open>DEFAULT_handleReceivedData()\<close>; the argument \<open>now\<close> is the value \<^verbatim>\<open>millis()\<close>
  returns. The result carries the calls made to the HID sink.
\<close>

definition handleReceivedData :: "TS \<Rightarrow> machine \<Rightarrow> machine \<times> event list" where
  "handleReceivedData now s =
     (if lastPress s \<noteq> 0 \<and> lastPress s > now then (s\<lparr>lastPress := 0\<rparr>, [])
      else if lastPress s \<noteq> 0 \<and> now - lastPress s < PRESS_DELAY then (s, [])
      else if data s = VOL_UP then (s\<lparr>lastPress := now\<rparr>, [HidPress MMKEY_VOL_UP])
      else if data s = VOL_DOWN then (s\<lparr>lastPress := now\<rparr>, [HidPress MMKEY_VOL_DOWN])
      else if data s = MUTE then (s\<lparr>lastPress := now\<rparr>, [HidPress MMKEY_MUTE])
      else (s, []))"

text \<open>
  \<^verbatim>\<open>loop()\<close>: the value of \<^verbatim>\<open>micros()\<close> it reads is never used; \<open>now\<close> is what
  \<^verbatim>\<open>millis()\<close> returns inside \<^verbatim>\<open>handleReceivedData()\<close>.
\<close>

definition loop :: "TS \<Rightarrow> machine \<Rightarrow> machine \<times> event list" where
  "loop now s =
     (if state s = STATE_DATA_READY then
        (case handleReceivedData now s of
           (s1, evs) \<Rightarrow> (reset s1, evs @ [DecoderReset, HidPoll]))
      else (s, [HidPoll]))"

text \<open>
  The part of the \<^verbatim>\<open>STATE_DATA\<close> case that follows the classification: storing the
  bit when the pulse is one of the eight code pulses, counting the pulse, and
  signalling a complete frame.
\<close>

definition data_pulse :: "uint8 \<Rightarrow> machine \<Rightarrow> machine" where
  "data_pulse dataBit s =
     (let s1 = (if pulseNum s \<ge> 16 \<and> pulseNum s < 24 then
                  (let s' = s\<lparr>data := data s OR dataBit\<rparr>
                   in if pulseNum s' < 23 then s'\<lparr>data := push_bit 1 (data s')\<rparr> else s')
                else s);
          s2 = s1\<lparr>pulseNum := pulseNum s1 + 1\<rparr>
      in if pulseNum s2 \<ge> 32 then s2\<lparr>state := STATE_DATA_READY\<rparr> else s2)"

text \<open>
  \<^verbatim>\<open>readIR()\<close>, the falling-edge handler; \<open>now\<close> is the value of \<^verbatim>\<open>micros()\<close>.
  \<^verbatim>\<open>delta\<close> is the difference of the two 32-bit timestamps cut to 16 bits, and it is
  computed once, before the timeout check.
\<close>

definition readIR :: "TS \<Rightarrow> machine \<Rightarrow> machine" where
  "readIR now s0 =
     (if lastRead s0 \<noteq> 0 \<and> lastRead s0 > now then reset s0
      else
        let delta = (ucast (now - lastRead s0) :: uint16);
            s = (if lastRead s0 \<noteq> 0 \<and> delta > 40 * MS then reset s0 else s0)
        in
          if state s = STATE_NEED_START then
            (if lastRead s = 0 then s\<lparr>lastRead := now, state := STATE_NEED_START2\<rparr>
             else s\<lparr>lastRead := now\<rparr>)
          else if state s = STATE_NEED_START2 then
            (if delta > 7 * MS \<and> delta < 11 * MS
             then s\<lparr>pulseNum := 0, state := STATE_DATA, lastRead := now\<rparr>
             else reset s)
          else if state s = STATE_DATA then
            (if delta > 1 * MS + 500 * US - TOLERANCE \<and> delta < 2 * MS + 500 * US + TOLERANCE
             then (data_pulse 1 s)\<lparr>lastRead := now\<rparr>
             else if delta > 1 * MS - TOLERANCE \<and> delta < 1 * MS + 500 * US + TOLERANCE
             then (data_pulse 0 s)\<lparr>lastRead := now\<rparr>
             else reset s)
          else s\<lparr>lastRead := now\<rparr>)"

text \<open>The handler run on a sequence of edges, given by their timestamps.\<close>

fun readIR_seq :: "TS list \<Rightarrow> machine \<Rightarrow> machine" where
  "readIR_seq [] s = s"
| "readIR_seq (t # ts) s = readIR_seq ts (readIR t s)"

section \<open>Notions used to state the properties\<close>

text \<open>
  The interval the handler computes: the difference of the current time and the
  recorded last edge, cut to 16 bits.
\<close>

definition delta16 :: "TS \<Rightarrow> machine \<Rightarrow> uint16" where
  "delta16 now s = ucast (now - lastRead s)"

text \<open>
  Neither of the two checks in front of the \<^verbatim>\<open>switch\<close> fires: there is no recorded
  edge, or the recorded edge is not after \<open>now\<close> and the interval is at most 40000.
\<close>

definition reaches_switch :: "TS \<Rightarrow> machine \<Rightarrow> bool" where
  "reaches_switch now s = (lastRead s = 0 \<or> (lastRead s \<le> now \<and> delta16 now s \<le> 40000))"

text \<open>
  The time in microseconds from the recorded last edge to \<open>now\<close>, as the full
  32-bit difference of the two timestamps.
\<close>

definition elapsed :: "TS \<Rightarrow> machine \<Rightarrow> nat" where
  "elapsed now s = unat (now - lastRead s)"

text \<open>The windows of the protocol, on intervals in microseconds.\<close>

definition in_start_window :: "nat \<Rightarrow> bool" where
  "in_start_window d = (7000 < d \<and> d < 11000)"

definition in_bit1_window :: "nat \<Rightarrow> bool" where
  "in_bit1_window d = (1500 - 20 < d \<and> d < 2500 + 20)"

definition in_bit0_window :: "nat \<Rightarrow> bool" where
  "in_bit0_window d = (1000 - 20 < d \<and> d < 1500 + 20)"

definition valid_data_interval :: "nat \<Rightarrow> bool" where
  "valid_data_interval d = (in_bit1_window d \<or> in_bit0_window d)"

text \<open>
  The timestamps of the edges that follow an edge at time \<open>t\<close> at the given intervals.
\<close>

fun edge_times :: "TS \<Rightarrow> nat list \<Rightarrow> TS list" where
  "edge_times t [] = []"
| "edge_times t (d # ds) = (t + of_nat d) # edge_times (t + of_nat d) ds"

text \<open>The byte whose bits are the given ones, the first of them the most significant.\<close>

definition code_of_bits :: "bool list \<Rightarrow> uint8" where
  "code_of_bits bs = horner_sum of_bool 2 (rev bs)"

text \<open>
  What one data pulse does to \<^verbatim>\<open>data\<close>, by the number of pulses counted before it, and
  the content of \<^verbatim>\<open>data\<close> after the pulses whose bits are \<open>bs\<close>.
\<close>

definition store_bit :: "nat \<Rightarrow> uint8 \<Rightarrow> uint8 \<Rightarrow> uint8" where
  "store_bit n d b =
     (if 16 \<le> n \<and> n < 24 then (if n < 23 then push_bit 1 (d OR b) else d OR b) else d)"

definition frame_data :: "bool list \<Rightarrow> uint8" where
  "frame_data bs =
     (if length bs \<le> 16 then 0
      else if length bs \<le> 23 then push_bit 1 (code_of_bits (drop 16 bs))
      else code_of_bits (take 8 (drop 16 bs)))"

text \<open>
  Orderings of the calls of one pass of the main loop: the decoder is reset before
  any key press is sent, or every key press is sent before the decoder is reset.
\<close>

fun is_press :: "event \<Rightarrow> bool" where
  "is_press (HidPress k) = True"
| "is_press DecoderReset = False"
| "is_press HidPoll = False"

definition reset_before_press :: "event list \<Rightarrow> bool" where
  "reset_before_press evs =
     (DecoderReset \<in> set evs
      \<and> list_all (\<lambda>e. \<not> is_press e) (takeWhile (\<lambda>e. e \<noteq> DecoderReset) evs))"

definition press_before_reset :: "event list \<Rightarrow> bool" where
  "press_before_reset evs =
     (DecoderReset \<in> set evs
      \<and> list_all (\<lambda>e. \<not> is_press e) (dropWhile (\<lambda>e. e \<noteq> DecoderReset) evs))"

text \<open>
  The dispatcher run on a sequence of decoded frames, each with the value of
  \<^verbatim>\<open>millis()\<close> at which it is handled and its code byte; the result lists the key
  presses sent, each with its time.
\<close>

fun handle_seq :: "(TS \<times> uint8) list \<Rightarrow> machine \<Rightarrow> (TS \<times> event) list" where
  "handle_seq [] s = []"
| "handle_seq ((now, code) # fs) s =
     (case handleReceivedData now (s\<lparr>data := code\<rparr>) of
        (s', evs) \<Rightarrow> map (Pair now) evs @ handle_seq fs s')"

text \<open>
  Every time of the list is followed only by times that are not before it and at least
  \<^verbatim>\<open>PRESS_DELAY\<close> after it.
\<close>

fun all_gaps_ok :: "TS list \<Rightarrow> bool" where
  "all_gaps_ok [] = True"
| "all_gaps_ok (a # ts) = (list_all (\<lambda>b. a \<le> b \<and> PRESS_DELAY \<le> b - a) ts \<and> all_gaps_ok ts)"

section \<open>Properties of the edge handler\<close>

subsection \<open>The handler, case by case\<close>

lemma thresholds:
  "40 * MS = 40000" "7 * MS = 7000" "11 * MS = 11000"
  "1 * MS + 500 * US - TOLERANCE = 1480" "2 * MS + 500 * US + TOLERANCE = 2520"
  "1 * MS - TOLERANCE = 980" "1 * MS + 500 * US + TOLERANCE = 1520"
  by (simp_all add: MS_def US_def TOLERANCE_def)

lemma state_distinct:
  "STATE_NEED_START2 \<noteq> STATE_NEED_START" "STATE_DATA \<noteq> STATE_NEED_START"
  "STATE_DATA_READY \<noteq> STATE_NEED_START" "STATE_DATA \<noteq> STATE_NEED_START2"
  "STATE_DATA_READY \<noteq> STATE_NEED_START2" "STATE_DATA_READY \<noteq> STATE_DATA"
  "STATE_NEED_START \<noteq> STATE_NEED_START2" "STATE_NEED_START \<noteq> STATE_DATA"
  "STATE_NEED_START \<noteq> STATE_DATA_READY" "STATE_NEED_START2 \<noteq> STATE_DATA"
  "STATE_NEED_START2 \<noteq> STATE_DATA_READY" "STATE_DATA \<noteq> STATE_DATA_READY"
  by (simp_all add: STATE_NEED_START_def STATE_NEED_START2_def STATE_DATA_def STATE_DATA_READY_def)

lemma readIR_no_abort:
  assumes "reaches_switch now s"
  shows "readIR now s =
    (if state s = STATE_NEED_START then
            (if lastRead s = 0 then s\<lparr>lastRead := now, state := STATE_NEED_START2\<rparr>
             else s\<lparr>lastRead := now\<rparr>)
          else if state s = STATE_NEED_START2 then
            (if delta16 now s > 7000 \<and> delta16 now s < 11000
             then s\<lparr>pulseNum := 0, state := STATE_DATA, lastRead := now\<rparr>
             else reset s)
          else if state s = STATE_DATA then
            (if delta16 now s > 1480 \<and> delta16 now s < 2520
             then (data_pulse 1 s)\<lparr>lastRead := now\<rparr>
             else if delta16 now s > 980 \<and> delta16 now s < 1520
             then (data_pulse 0 s)\<lparr>lastRead := now\<rparr>
             else reset s)
          else s\<lparr>lastRead := now\<rparr>)"
proof -
  from assms have a: "(lastRead s \<noteq> 0 \<and> lastRead s > now) = False"
    by (auto simp add: reaches_switch_def)
  from assms have b: "(lastRead s \<noteq> 0 \<and> ucast (now - lastRead s) > (40000 :: uint16)) = False"
    by (auto simp add: reaches_switch_def delta16_def)
  show ?thesis
    unfolding readIR_def Let_def thresholds delta16_def a b if_False
    by (rule refl)
qed

lemma readIR_timeout:
  assumes "lastRead s \<noteq> 0" "lastRead s \<le> now" "delta16 now s > 40000"
  shows "readIR now s = (reset s)\<lparr>lastRead := now, state := STATE_NEED_START2\<rparr>"
proof -
  from assms have a: "\<not> (lastRead s \<noteq> 0 \<and> lastRead s > now)"
    by auto
  from assms have b: "lastRead s \<noteq> 0 \<and> ucast (now - lastRead s) > (40000 :: uint16)"
    by (auto simp add: delta16_def)
  have c: "state (reset s) = STATE_NEED_START" "lastRead (reset s) = 0"
    by (simp_all add: reset_def)
  show ?thesis
    unfolding readIR_def Let_def thresholds
    using a b c by simp
qed

lemma readIR_first_edge:
  "readIR t0 (reset s) = (reset s)\<lparr>lastRead := t0, state := STATE_NEED_START2\<rparr>"
proof -
  have "reaches_switch t0 (reset s)"
    by (simp add: reaches_switch_def reset_def)
  then show ?thesis
    by (simp add: readIR_no_abort) (simp add: reset_def)
qed

subsection \<open>A complete frame\<close>

lemma pulse_cmp:
  assumes "n < 32"
  shows "((16 :: uint8) \<le> of_nat n) = (16 \<le> n)"
    and "((of_nat n :: uint8) < 24) = (n < 24)"
    and "((of_nat n :: uint8) < 23) = (n < 23)"
    and "((32 :: uint8) \<le> of_nat n + 1) = (Suc n = 32)"
  using assms
  by (auto simp add: word_le_nat_alt word_less_nat_alt unat_of_nat unat_word_ariths)

lemma data_pulse_of_nat:
  assumes "pulseNum s = of_nat n" and "n < 32"
  shows "data_pulse b s =
     s\<lparr>data := store_bit n (data s) b, pulseNum := of_nat (Suc n),
       state := (if Suc n = 32 then STATE_DATA_READY else state s)\<rparr>"
  using assms
  by (simp add: data_pulse_def Let_def store_bit_def pulse_cmp)

lemma stamp_le:
  assumes "unat (t :: TS) + d < 2 ^ 32"
  shows "t \<le> t + of_nat d"
  using assms
  by (simp add: word_le_nat_alt unat_word_ariths unat_of_nat)

lemma stamp_unat:
  assumes "unat (t :: TS) + d < 2 ^ 32"
  shows "unat (t + of_nat d) = unat t + d"
  using assms
  by (simp add: unat_word_ariths unat_of_nat)

lemma stamp_delta:
  assumes "d < 65536"
  shows "unat (ucast (of_nat d :: TS) :: uint16) = d"
  using assms
  by (simp add: unat_of_nat unsigned_of_nat take_bit_eq_mod)

lemma delta16_stamp:
  assumes "d < 65536" and "lastRead s = t"
  shows "unat (delta16 (t + of_nat d) s) = d"
  using assms by (simp add: delta16_def stamp_delta)

lemma delta16_cmp:
  "(delta16 now s < numeral k) = (unat (delta16 now s) < unat (numeral k :: uint16))"
  "(numeral k < delta16 now s) = (unat (numeral k :: uint16) < unat (delta16 now s))"
  "(delta16 now s \<le> numeral k) = (unat (delta16 now s) \<le> unat (numeral k :: uint16))"
  by (simp_all only: word_less_nat_alt word_le_nat_alt)

lemma readIR_start_step:
  assumes "state s = STATE_NEED_START2" and "unat (lastRead s) + d < 2 ^ 32"
    and "in_start_window d"
  shows "readIR (lastRead s + of_nat d) s =
           s\<lparr>pulseNum := 0, state := STATE_DATA, lastRead := lastRead s + of_nat d\<rparr>"
proof -
  from assms(3) have d: "7000 < d" "d < 11000" "d < 65536"
    by (simp_all add: in_start_window_def)
  have u: "unat (delta16 (lastRead s + of_nat d) s) = d"
    using d(3) by (rule delta16_stamp) simp
  have "reaches_switch (lastRead s + of_nat d) s"
    using d stamp_le [OF assms(2)] by (simp add: reaches_switch_def delta16_cmp u)
  then show ?thesis
    using assms(1) d by (simp add: readIR_no_abort state_distinct delta16_cmp u)
qed

lemma readIR_data_step:
  assumes "state s = STATE_DATA" and "unat (lastRead s) + d < 2 ^ 32"
    and "in_bit1_window d \<or> in_bit0_window d"
  shows "readIR (lastRead s + of_nat d) s =
           (data_pulse (of_bool (in_bit1_window d)) s)\<lparr>lastRead := lastRead s + of_nat d\<rparr>"
proof -
  from assms(3) have d: "980 < d" "d < 2520" "d < 65536"
    by (auto simp add: in_bit1_window_def in_bit0_window_def)
  have u: "unat (delta16 (lastRead s + of_nat d) s) = d"
    using d(3) by (rule delta16_stamp) simp
  have "reaches_switch (lastRead s + of_nat d) s"
    using d stamp_le [OF assms(2)] by (simp add: reaches_switch_def delta16_cmp u)
  then show ?thesis
    using assms(1) d
    by (simp add: readIR_no_abort state_distinct delta16_cmp u in_bit1_window_def)
qed

lemma code_of_bits_snoc:
  "code_of_bits (bs @ [b]) = push_bit 1 (code_of_bits bs) OR of_bool b"
  by (cases b) (simp_all add: code_of_bits_def push_bit_eq_mult or_one_eq mult.commute)

lemma code_of_bits_bit:
  assumes "length bs = 8" and "k < 8"
  shows "bit (code_of_bits bs) (7 - k) = bs ! k"
  using assms
  by (auto simp add: code_of_bits_def bit_horner_sum_bit_word_iff rev_nth)

lemma frame_data_snoc:
  assumes "length bs < 32"
  shows "frame_data (bs @ [b]) = store_bit (length bs) (frame_data bs) (of_bool b)"
proof -
  consider "length bs < 16" | "length bs = 16" | "16 < length bs" "length bs < 23"
    | "length bs = 23" | "23 < length bs"
    by linarith
  then show ?thesis
  proof cases
    case 1
    then show ?thesis by (simp add: frame_data_def store_bit_def)
  next
    case 2
    then show ?thesis by (simp add: frame_data_def store_bit_def code_of_bits_def)
  next
    case 3
    then show ?thesis by (simp add: frame_data_def store_bit_def code_of_bits_snoc)
  next
    case 4
    then show ?thesis by (simp add: frame_data_def store_bit_def code_of_bits_snoc)
  next
    case 5
    then show ?thesis by (simp add: frame_data_def store_bit_def)
  qed
qed

lemma readIR_seq_data:
  assumes "state s = STATE_DATA"
    and "pulseNum s = of_nat (length bs)"
    and "data s = frame_data bs"
    and "length bs + length ds \<le> 32"
    and "\<forall>d\<in>set ds. in_bit1_window d \<or> in_bit0_window d"
    and "unat (lastRead s) + sum_list ds < 2 ^ 32"
    and "length bs < 32"
  shows "readIR_seq (edge_times (lastRead s) ds) s =
           s\<lparr>data := frame_data (bs @ map in_bit1_window ds),
             pulseNum := of_nat (length bs + length ds),
             state := (if length bs + length ds = 32 then STATE_DATA_READY else STATE_DATA),
             lastRead := lastRead s + of_nat (sum_list ds)\<rparr>"
  using assms
proof (induction ds arbitrary: s bs)
  case Nil
  then show ?case by simp
next
  case (Cons d ds)
  let ?t = "lastRead s + of_nat d"
  let ?s = "readIR ?t s"
  have len: "length bs < 32" using Cons.prems(4) by simp
  note IH = Cons.IH
  have win: "in_bit1_window d \<or> in_bit0_window d" using Cons.prems(5) by simp
  have ovf: "unat (lastRead s) + d < 2 ^ 32" using Cons.prems(6) by simp
  have step: "?s = s\<lparr>data := frame_data (bs @ [in_bit1_window d]),
                       pulseNum := of_nat (length (bs @ [in_bit1_window d])),
                       state := (if Suc (length bs) = 32 then STATE_DATA_READY else STATE_DATA),
                       lastRead := ?t\<rparr>"
    using Cons.prems(1,2,3) len
    by (simp add: readIR_data_step [OF Cons.prems(1) ovf win] data_pulse_of_nat frame_data_snoc)
  have more: "ds \<noteq> [] \<Longrightarrow> Suc (length bs) \<noteq> 32" using Cons.prems(4) by (cases ds) simp_all
  show ?case
  proof (cases ds)
    case Nil
    then show ?thesis using step by simp
  next
    case (Cons d' ds')
    then have ne: "Suc (length bs) \<noteq> 32" using more by simp
    have l3: "length (bs @ [in_bit1_window d]) < 32" using Cons.prems(4) Cons by simp
    have st: "state ?s = STATE_DATA" using step ne by simp
    have pn: "pulseNum ?s = of_nat (length (bs @ [in_bit1_window d]))" using step by simp
    have dt: "data ?s = frame_data (bs @ [in_bit1_window d])" using step by simp
    have lr: "lastRead ?s = ?t" using step by simp
    have l2: "length (bs @ [in_bit1_window d]) + length ds \<le> 32" using Cons.prems(4) by simp
    have w2: "\<forall>d\<in>set ds. in_bit1_window d \<or> in_bit0_window d" using Cons.prems(5) by simp
    have o2: "unat (lastRead ?s) + sum_list ds < 2 ^ 32"
      using Cons.prems(6) by (simp add: lr stamp_unat [OF ovf])
    have "readIR_seq (edge_times (lastRead ?s) ds) ?s =
           ?s\<lparr>data := frame_data ((bs @ [in_bit1_window d]) @ map in_bit1_window ds),
             pulseNum := of_nat (length (bs @ [in_bit1_window d]) + length ds),
             state := (if length (bs @ [in_bit1_window d]) + length ds = 32 then STATE_DATA_READY else STATE_DATA),
             lastRead := lastRead ?s + of_nat (sum_list ds)\<rparr>"
      by (rule IH [OF st pn dt l2 w2 o2 l3])
    then show ?thesis
      by (simp add: lr) (simp add: step add.assoc)
  qed
qed

text \<open>
  C1: the decoder is in its reset state when the first edge comes, at any time \<open>t0\<close>.
  The start-confirm edge follows after an interval strictly between 7000 and 11000
  microseconds, and 32 data edges follow, each after an interval that lies in the
  window of the bit 1 or in the window of the bit 0; the clock does not wrap during the
  frame. Then the decoder is in \<^verbatim>\<open>STATE_DATA_READY\<close> with 32 pulses counted, and
  \<^verbatim>\<open>data\<close> holds the bits of the pulses 16 to 23 in the order of arrival, the first the
  most significant: bit 7 is the bit of pulse 16 and bit 0 the bit of pulse 23. The bit
  of an interval is 1 when it lies in the window of the bit 1, which is tested first.
\<close>

theorem frame_decoded:
  assumes start: "in_start_window d0"
    and len: "length ds = 32"
    and valid: "list_all valid_data_interval ds"
    and nowrap: "unat t0 + d0 + sum_list ds < 2 ^ 32"
    and run: "s' = readIR_seq (t0 # edge_times t0 (d0 # ds)) (reset s)"
  shows "state s' = STATE_DATA_READY
       \<and> pulseNum s' = 32
       \<and> data s' = code_of_bits (map in_bit1_window (take 8 (drop 16 ds)))
       \<and> (\<forall>k<8. bit (data s') (7 - k) = in_bit1_window (ds ! (16 + k)))"
proof -
  let ?s1 = "(reset s)\<lparr>lastRead := t0, state := STATE_NEED_START2\<rparr>"
  let ?t1 = "t0 + of_nat d0"
  let ?s2 = "?s1\<lparr>pulseNum := 0, state := STATE_DATA, lastRead := ?t1\<rparr>"
  let ?bits = "map in_bit1_window ds"
  have o1: "unat (lastRead ?s1) + d0 < 2 ^ 32" using nowrap by simp
  have e2: "readIR ?t1 ?s1 = ?s2"
    using readIR_start_step [of ?s1 d0] o1 start by simp
  have w: "\<forall>d\<in>set ds. in_bit1_window d \<or> in_bit0_window d"
    using valid by (simp add: list_all_iff valid_data_interval_def)
  have o2: "unat (lastRead ?s2) + sum_list ds < 2 ^ 32"
    using nowrap o1 by (simp add: stamp_unat)
  have "readIR_seq (edge_times (lastRead ?s2) ds) ?s2 =
           ?s2\<lparr>data := frame_data ([] @ ?bits),
             pulseNum := of_nat (length ([] :: bool list) + length ds),
             state := (if length ([] :: bool list) + length ds = 32 then STATE_DATA_READY else STATE_DATA),
             lastRead := lastRead ?s2 + of_nat (sum_list ds)\<rparr>"
    by (rule readIR_seq_data [OF _ _ _ _ w o2]) (simp_all add: len frame_data_def reset_def)
  then have fin: "s' = ?s2\<lparr>data := frame_data ?bits, pulseNum := 32,
                          state := STATE_DATA_READY,
                          lastRead := ?t1 + of_nat (sum_list ds)\<rparr>"
    by (simp add: run readIR_first_edge e2 len)
  have fd: "frame_data ?bits = code_of_bits (map in_bit1_window (take 8 (drop 16 ds)))"
    by (simp add: frame_data_def len take_map drop_map)
  have bits: "bit (data s') (7 - k) = in_bit1_window (ds ! (16 + k))" if "k < 8" for k
  proof -
    have "bit (code_of_bits (map in_bit1_window (take 8 (drop 16 ds)))) (7 - k)
            = map in_bit1_window (take 8 (drop 16 ds)) ! k"
      using that by (intro code_of_bits_bit) (simp_all add: len)
    also have "\<dots> = in_bit1_window (ds ! (16 + k))"
      using that by (simp add: len)
    finally show ?thesis by (simp add: fin fd)
  qed
  from fin fd bits show ?thesis by simp
qed

theorem frame_decoded_witness:
  "state (readIR_seq (5000 # edge_times 5000 (9000 #
       [1200, 1200, 1200, 1200, 1200, 1200, 1200, 1200,
        1200, 1200, 1200, 1200, 1200, 1200, 1200, 1200,
        2000, 2000, 2000, 1200, 1200, 1200, 1200, 1200,
        1200, 1200, 1200, 1200, 1200, 1200, 1200, 1200]))
     (reset \<lparr>lastRead = 0, pulseNum = 0, data = 0, state = STATE_NEED_START, lastPress = 0\<rparr>))
     = STATE_DATA_READY
   \<and> data (readIR_seq (5000 # edge_times 5000 (9000 #
       [1200, 1200, 1200, 1200, 1200, 1200, 1200, 1200,
        1200, 1200, 1200, 1200, 1200, 1200, 1200, 1200,
        2000, 2000, 2000, 1200, 1200, 1200, 1200, 1200,
        1200, 1200, 1200, 1200, 1200, 1200, 1200, 1200]))
     (reset \<lparr>lastRead = 0, pulseNum = 0, data = 0, state = STATE_NEED_START, lastPress = 0\<rparr>))
     = 0xE0"
proof -
  let ?ds = "[1200, 1200, 1200, 1200, 1200, 1200, 1200, 1200,
        1200, 1200, 1200, 1200, 1200, 1200, 1200, 1200,
        2000, 2000, 2000, 1200, 1200, 1200, 1200, 1200,
        1200, 1200, 1200, 1200, 1200, 1200, 1200, 1200 :: nat]"
  let ?s = "\<lparr>lastRead = 0, pulseNum = 0, data = 0, state = STATE_NEED_START, lastPress = 0\<rparr>"
  have h1: "in_start_window 9000" by (simp add: in_start_window_def)
  have h2: "length ?ds = 32" by simp
  have h3: "list_all valid_data_interval ?ds"
    by (simp add: valid_data_interval_def in_bit1_window_def in_bit0_window_def)
  have h4: "unat (5000 :: TS) + 9000 + sum_list ?ds < 2 ^ 32" by simp
  have c: "code_of_bits (map in_bit1_window (take 8 (drop 16 ?ds))) = 0xE0"
    by (simp add: code_of_bits_def in_bit1_window_def)
  from frame_decoded [OF h1 h2 h3 h4 refl, of ?s] c show ?thesis
    by (simp only:)
qed

subsection \<open>Aborts, timeouts and stray edges\<close>

lemma delta16_elapsed:
  assumes "elapsed now s < 65536"
  shows "unat (delta16 now s) = elapsed now s"
  using assms
  by (simp add: delta16_def elapsed_def unsigned_ucast_eq take_bit_eq_mod)

lemma delta16_elapsed_cmp:
  assumes "elapsed now s < 65536"
  shows "(7000 < delta16 now s \<and> delta16 now s < 11000) = in_start_window (elapsed now s)"
    and "(1480 < delta16 now s \<and> delta16 now s < 2520) = in_bit1_window (elapsed now s)"
    and "(980 < delta16 now s \<and> delta16 now s < 1520) = in_bit0_window (elapsed now s)"
    and "(delta16 now s \<le> 40000) = (elapsed now s \<le> 40000)"
    and "(40000 < delta16 now s) = (40000 < elapsed now s)"
  by (simp_all add: delta16_cmp delta16_elapsed [OF assms]
        in_start_window_def in_bit1_window_def in_bit0_window_def)

text \<open>
  C8: when the recorded last-edge timestamp is non-empty and greater than the current
  time, the handler performs a full reset and returns without classifying the interval:
  the timestamp is emptied, the frame buffer is zeroed and the state is the initial one,
  whatever the state and the low 16 bits of the difference were.
\<close>

theorem readIR_wraparound_resets:
  assumes "lastRead s \<noteq> 0" and "lastRead s > now"
  shows "readIR now s = reset s
       \<and> lastRead (readIR now s) = 0
       \<and> pulseNum (readIR now s) = 0
       \<and> data (readIR now s) = 0
       \<and> state (readIR now s) = STATE_NEED_START"
  using assms by (simp add: readIR_def reset_def)

theorem readIR_wraparound_resets_witness:
  "lastRead \<lparr>lastRead = 4294967000, pulseNum = 20, data = 6, state = STATE_DATA, lastPress = 0\<rparr> \<noteq> 0
   \<and> lastRead \<lparr>lastRead = 4294967000, pulseNum = 20, data = 6, state = STATE_DATA, lastPress = 0\<rparr> > 1704
   \<and> readIR 1704 \<lparr>lastRead = 4294967000, pulseNum = 20, data = 6, state = STATE_DATA, lastPress = 0\<rparr>
       = \<lparr>lastRead = 0, pulseNum = 0, data = 0, state = STATE_NEED_START, lastPress = 0\<rparr>"
  using readIR_wraparound_resets
    [of "\<lparr>lastRead = 4294967000, pulseNum = 20, data = 6, state = STATE_DATA, lastPress = 0\<rparr>" 1704]
  by (simp add: reset_def)

text \<open>
  C2, at an input where the code departs from it: the decoder waits for the start
  confirmation, the last edge was recorded at 1000 and the next edge comes at 75536,
  that is 74536 microseconds (more than 40 ms) later. The 16-bit \<^verbatim>\<open>delta\<close> is
  74536 - 65536 = 9000, so the timeout check does not fire, no reset is made, and the
  edge is taken for a valid start confirmation measured against the stale edge.
\<close>

theorem readIR_stale_edge_accepted:
  "lastRead \<lparr>lastRead = 1000, pulseNum = 0, data = 0, state = STATE_NEED_START2, lastPress = 0\<rparr> \<noteq> 0
   \<and> (40000 :: nat) < unat (75536 - lastRead \<lparr>lastRead = 1000, pulseNum = 0, data = 0, state = STATE_NEED_START2, lastPress = 0\<rparr>)
   \<and> delta16 75536 \<lparr>lastRead = 1000, pulseNum = 0, data = 0, state = STATE_NEED_START2, lastPress = 0\<rparr> = 9000
   \<and> readIR 75536 \<lparr>lastRead = 1000, pulseNum = 0, data = 0, state = STATE_NEED_START2, lastPress = 0\<rparr>
       = \<lparr>lastRead = 75536, pulseNum = 0, data = 0, state = STATE_DATA, lastPress = 0\<rparr>"
  by (simp add: readIR_def delta16_def thresholds state_distinct)

text \<open>
  C4, as the claim states it, fails: a start-confirm interval outside the window that
  also exceeds the timeout does not leave the decoder in \<^verbatim>\<open>STATE_NEED_START\<close>. With the
  last edge at 1000 and the next at 51000 the interval is 50000; the timeout check resets
  the decoder and the edge is then recorded as a first edge, so the state is
  \<^verbatim>\<open>STATE_NEED_START2\<close> again.
\<close>

theorem start_confirm_timeout_counterexample:
  "state \<lparr>lastRead = 1000, pulseNum = 0, data = 0, state = STATE_NEED_START2, lastPress = 0\<rparr>
     = STATE_NEED_START2
   \<and> elapsed 51000 \<lparr>lastRead = 1000, pulseNum = 0, data = 0, state = STATE_NEED_START2, lastPress = 0\<rparr>
       = 50000
   \<and> \<not> in_start_window
         (elapsed 51000 \<lparr>lastRead = 1000, pulseNum = 0, data = 0, state = STATE_NEED_START2, lastPress = 0\<rparr>)
   \<and> \<not> (7000 < delta16 51000 \<lparr>lastRead = 1000, pulseNum = 0, data = 0, state = STATE_NEED_START2, lastPress = 0\<rparr>
        \<and> delta16 51000 \<lparr>lastRead = 1000, pulseNum = 0, data = 0, state = STATE_NEED_START2, lastPress = 0\<rparr> < 11000)
   \<and> state (readIR 51000 \<lparr>lastRead = 1000, pulseNum = 0, data = 0, state = STATE_NEED_START2, lastPress = 0\<rparr>)
       \<noteq> STATE_NEED_START"
  by (simp add: readIR_def delta16_def elapsed_def in_start_window_def thresholds
        state_distinct reset_def)

text \<open>
  C4, amended: in \<^verbatim>\<open>STATE_NEED_START2\<close>, when the wraparound check does not fire and the
  interval since the recorded edge is below 65536 microseconds,
  \<^item> an interval strictly between 7000 and 11000 sets \<^verbatim>\<open>pulseNum\<close> to 0 and moves to
    \<^verbatim>\<open>STATE_DATA\<close> (the new edge is recorded, \<^verbatim>\<open>data\<close> is left as it is);
  \<^item> an interval outside the window on which the timeout check does not fire (at most
    40000, or no edge recorded) gives a full reset: the decoder is left in
    \<^verbatim>\<open>STATE_NEED_START\<close> with \<^verbatim>\<open>pulseNum\<close> 0;
  \<^item> an interval above 40000 after a recorded edge gives a full reset, after which the
    edge is recorded as a first edge: \<^verbatim>\<open>STATE_NEED_START2\<close> with \<^verbatim>\<open>pulseNum\<close> 0.

  The interval is the real one, \<open>elapsed\<close>, not its low 16 bits. Nothing is stated
  for intervals of 65536 microseconds and more.
\<close>

theorem start_confirm_step:
  assumes "state s = STATE_NEED_START2" and "lastRead s = 0 \<or> lastRead s \<le> now"
    and "elapsed now s < 65536"
  shows "(in_start_window (elapsed now s) \<longrightarrow>
            readIR now s = s\<lparr>pulseNum := 0, state := STATE_DATA, lastRead := now\<rparr>)
       \<and> (\<not> in_start_window (elapsed now s)
            \<and> (lastRead s = 0 \<or> elapsed now s \<le> 40000) \<longrightarrow>
            readIR now s = reset s
            \<and> state (readIR now s) = STATE_NEED_START \<and> pulseNum (readIR now s) = 0)
       \<and> (lastRead s \<noteq> 0 \<and> 40000 < elapsed now s \<longrightarrow>
            readIR now s = (reset s)\<lparr>lastRead := now, state := STATE_NEED_START2\<rparr>
            \<and> pulseNum (readIR now s) = 0)"
proof (intro conjI impI)
  note cmp = delta16_elapsed_cmp [OF assms(3)]
  {
    assume w: "in_start_window (elapsed now s)"
    then have "elapsed now s \<le> 40000"
      by (simp add: in_start_window_def)
    with assms(2) have "reaches_switch now s"
      by (auto simp add: reaches_switch_def cmp)
    then show "readIR now s = s\<lparr>pulseNum := 0, state := STATE_DATA, lastRead := now\<rparr>"
      using assms(1) w by (simp add: readIR_no_abort state_distinct cmp)
  next
    assume a: "\<not> in_start_window (elapsed now s)
               \<and> (lastRead s = 0 \<or> elapsed now s \<le> 40000)"
    with assms(2) have "reaches_switch now s"
      by (auto simp add: reaches_switch_def cmp)
    then show r: "readIR now s = reset s"
      using assms(1) a by (simp add: readIR_no_abort state_distinct cmp)
    show "state (readIR now s) = STATE_NEED_START" "pulseNum (readIR now s) = 0"
      by (simp_all add: r reset_def)
  next
    assume a: "lastRead s \<noteq> 0 \<and> 40000 < elapsed now s"
    with assms(2) show r: "readIR now s = (reset s)\<lparr>lastRead := now, state := STATE_NEED_START2\<rparr>"
      by (simp add: readIR_timeout cmp)
    show "pulseNum (readIR now s) = 0"
      by (simp add: r reset_def)
  }
qed

theorem start_confirm_step_witness:
  "elapsed 10000 \<lparr>lastRead = 1000, pulseNum = 7, data = 3, state = STATE_NEED_START2, lastPress = 0\<rparr> = 9000
   \<and> readIR 10000 \<lparr>lastRead = 1000, pulseNum = 7, data = 3, state = STATE_NEED_START2, lastPress = 0\<rparr>
     = \<lparr>lastRead = 10000, pulseNum = 0, data = 3, state = STATE_DATA, lastPress = 0\<rparr>
   \<and> elapsed 5000 \<lparr>lastRead = 1000, pulseNum = 7, data = 3, state = STATE_NEED_START2, lastPress = 0\<rparr> = 4000
   \<and> readIR 5000 \<lparr>lastRead = 1000, pulseNum = 7, data = 3, state = STATE_NEED_START2, lastPress = 0\<rparr>
     = \<lparr>lastRead = 0, pulseNum = 0, data = 0, state = STATE_NEED_START, lastPress = 0\<rparr>
   \<and> elapsed 51000 \<lparr>lastRead = 1000, pulseNum = 7, data = 3, state = STATE_NEED_START2, lastPress = 0\<rparr> = 50000
   \<and> readIR 51000 \<lparr>lastRead = 1000, pulseNum = 7, data = 3, state = STATE_NEED_START2, lastPress = 0\<rparr>
     = \<lparr>lastRead = 51000, pulseNum = 0, data = 0, state = STATE_NEED_START2, lastPress = 0\<rparr>"
  using
    start_confirm_step
      [of "\<lparr>lastRead = 1000, pulseNum = 7, data = 3, state = STATE_NEED_START2, lastPress = 0\<rparr>" 10000]
    start_confirm_step
      [of "\<lparr>lastRead = 1000, pulseNum = 7, data = 3, state = STATE_NEED_START2, lastPress = 0\<rparr>" 5000]
    start_confirm_step
      [of "\<lparr>lastRead = 1000, pulseNum = 7, data = 3, state = STATE_NEED_START2, lastPress = 0\<rparr>" 51000]
  by (simp add: elapsed_def in_start_window_def reset_def)

text \<open>
  C6, as the claim states it, fails: in \<^verbatim>\<open>STATE_DATA\<close> with the last edge at 1000, an edge
  at 51000 gives the interval 50000, outside both bit windows. It is above the timeout,
  so after the reset this edge itself is recorded as the first edge, and the next edge,
  at 60000, is not treated as a first edge: it is taken as the start confirmation
  (9000 after the edge at 51000) and the decoder moves to \<^verbatim>\<open>STATE_DATA\<close>.
\<close>

theorem malformed_interval_timeout_counterexample:
  "state \<lparr>lastRead = 1000, pulseNum = 5, data = 0, state = STATE_DATA, lastPress = 0\<rparr> = STATE_DATA
   \<and> elapsed 51000 \<lparr>lastRead = 1000, pulseNum = 5, data = 0, state = STATE_DATA, lastPress = 0\<rparr> = 50000
   \<and> \<not> in_bit1_window
         (elapsed 51000 \<lparr>lastRead = 1000, pulseNum = 5, data = 0, state = STATE_DATA, lastPress = 0\<rparr>)
   \<and> \<not> in_bit0_window
         (elapsed 51000 \<lparr>lastRead = 1000, pulseNum = 5, data = 0, state = STATE_DATA, lastPress = 0\<rparr>)
   \<and> \<not> (1480 < delta16 51000 \<lparr>lastRead = 1000, pulseNum = 5, data = 0, state = STATE_DATA, lastPress = 0\<rparr>
        \<and> delta16 51000 \<lparr>lastRead = 1000, pulseNum = 5, data = 0, state = STATE_DATA, lastPress = 0\<rparr> < 2520)
   \<and> \<not> (980 < delta16 51000 \<lparr>lastRead = 1000, pulseNum = 5, data = 0, state = STATE_DATA, lastPress = 0\<rparr>
        \<and> delta16 51000 \<lparr>lastRead = 1000, pulseNum = 5, data = 0, state = STATE_DATA, lastPress = 0\<rparr> < 1520)
   \<and> readIR 60000 (readIR 51000 \<lparr>lastRead = 1000, pulseNum = 5, data = 0, state = STATE_DATA, lastPress = 0\<rparr>)
       = \<lparr>lastRead = 60000, pulseNum = 0, data = 0, state = STATE_DATA, lastPress = 0\<rparr>
   \<and> state (readIR 60000 (readIR 51000 \<lparr>lastRead = 1000, pulseNum = 5, data = 0, state = STATE_DATA, lastPress = 0\<rparr>))
       \<noteq> STATE_NEED_START2"
  by (simp add: readIR_def delta16_def elapsed_def in_bit1_window_def in_bit0_window_def
        thresholds state_distinct reset_def)

text \<open>
  C6, amended: in \<^verbatim>\<open>STATE_DATA\<close>, when the wraparound check does not fire and the
  interval since the recorded edge is below 65536 microseconds, an interval outside both
  bit windows always gives a full reset, and the handler has no error result. When the
  timeout check does not fire on it (the interval is at most 40000, or no edge is
  recorded), the decoder is left in the reset state and the next edge, at any time
  \<open>now'\<close>, is recorded as a first edge and moves to \<^verbatim>\<open>STATE_NEED_START2\<close>. When the
  interval is above 40000 after a recorded edge, the triggering edge itself is recorded
  as the first edge of the fresh attempt. In both cases nothing of the aborted frame is
  kept.

  The interval is the real one, \<open>elapsed\<close>, not its low 16 bits. Nothing is stated
  for intervals of 65536 microseconds and more.
\<close>

theorem malformed_interval_step:
  assumes "state s = STATE_DATA" and "lastRead s = 0 \<or> lastRead s \<le> now"
    and "elapsed now s < 65536"
    and "\<not> in_bit1_window (elapsed now s)" and "\<not> in_bit0_window (elapsed now s)"
  shows "(lastRead s = 0 \<or> elapsed now s \<le> 40000 \<longrightarrow>
            readIR now s = reset s
            \<and> readIR now' (readIR now s) = (reset s)\<lparr>lastRead := now', state := STATE_NEED_START2\<rparr>)
       \<and> (lastRead s \<noteq> 0 \<and> 40000 < elapsed now s \<longrightarrow>
            readIR now s = (reset s)\<lparr>lastRead := now, state := STATE_NEED_START2\<rparr>)"
proof (intro conjI impI)
  note cmp = delta16_elapsed_cmp [OF assms(3)]
  {
    assume a: "lastRead s = 0 \<or> elapsed now s \<le> 40000"
    with assms(2) have "reaches_switch now s"
      by (auto simp add: reaches_switch_def cmp)
    then show r: "readIR now s = reset s"
      using assms(1,4,5) by (simp add: readIR_no_abort state_distinct cmp)
    show "readIR now' (readIR now s) = (reset s)\<lparr>lastRead := now', state := STATE_NEED_START2\<rparr>"
      by (simp add: r readIR_first_edge)
  next
    assume "lastRead s \<noteq> 0 \<and> 40000 < elapsed now s"
    with assms(2) show "readIR now s = (reset s)\<lparr>lastRead := now, state := STATE_NEED_START2\<rparr>"
      by (simp add: readIR_timeout cmp)
  }
qed

theorem malformed_interval_step_witness:
  "elapsed 4000 \<lparr>lastRead = 1000, pulseNum = 19, data = 6, state = STATE_DATA, lastPress = 0\<rparr> = 3000
   \<and> readIR 4000 \<lparr>lastRead = 1000, pulseNum = 19, data = 6, state = STATE_DATA, lastPress = 0\<rparr>
     = \<lparr>lastRead = 0, pulseNum = 0, data = 0, state = STATE_NEED_START, lastPress = 0\<rparr>
   \<and> readIR 4700 (readIR 4000 \<lparr>lastRead = 1000, pulseNum = 19, data = 6, state = STATE_DATA, lastPress = 0\<rparr>)
     = \<lparr>lastRead = 4700, pulseNum = 0, data = 0, state = STATE_NEED_START2, lastPress = 0\<rparr>
   \<and> elapsed 51000 \<lparr>lastRead = 1000, pulseNum = 19, data = 6, state = STATE_DATA, lastPress = 0\<rparr> = 50000
   \<and> readIR 51000 \<lparr>lastRead = 1000, pulseNum = 19, data = 6, state = STATE_DATA, lastPress = 0\<rparr>
     = \<lparr>lastRead = 51000, pulseNum = 0, data = 0, state = STATE_NEED_START2, lastPress = 0\<rparr>"
  using
    malformed_interval_step
      [of "\<lparr>lastRead = 1000, pulseNum = 19, data = 6, state = STATE_DATA, lastPress = 0\<rparr>" 4000 4700]
    malformed_interval_step
      [of "\<lparr>lastRead = 1000, pulseNum = 19, data = 6, state = STATE_DATA, lastPress = 0\<rparr>" 51000 0]
  by (simp add: elapsed_def in_bit1_window_def in_bit0_window_def reset_def readIR_def
        state_distinct)

text \<open>
  C7, as the claim states it, fails: a complete frame with code 224 waits in
  \<^verbatim>\<open>STATE_DATA_READY\<close>, its last edge recorded at 1000. An edge at 51000 makes the
  timeout check fire: the frame is erased and the edge starts a new attempt.
\<close>

theorem frame_ready_timeout_counterexample:
  "state \<lparr>lastRead = 1000, pulseNum = 32, data = 224, state = STATE_DATA_READY, lastPress = 0\<rparr>
     = STATE_DATA_READY
   \<and> readIR 51000 \<lparr>lastRead = 1000, pulseNum = 32, data = 224, state = STATE_DATA_READY, lastPress = 0\<rparr>
     = \<lparr>lastRead = 51000, pulseNum = 0, data = 0, state = STATE_NEED_START2, lastPress = 0\<rparr>
   \<and> data (readIR 51000 \<lparr>lastRead = 1000, pulseNum = 32, data = 224, state = STATE_DATA_READY, lastPress = 0\<rparr>)
     \<noteq> data \<lparr>lastRead = 1000, pulseNum = 32, data = 224, state = STATE_DATA_READY, lastPress = 0\<rparr>
   \<and> pulseNum (readIR 51000 \<lparr>lastRead = 1000, pulseNum = 32, data = 224, state = STATE_DATA_READY, lastPress = 0\<rparr>)
     \<noteq> pulseNum \<lparr>lastRead = 1000, pulseNum = 32, data = 224, state = STATE_DATA_READY, lastPress = 0\<rparr>
   \<and> state (readIR 51000 \<lparr>lastRead = 1000, pulseNum = 32, data = 224, state = STATE_DATA_READY, lastPress = 0\<rparr>)
     \<noteq> state \<lparr>lastRead = 1000, pulseNum = 32, data = 224, state = STATE_DATA_READY, lastPress = 0\<rparr>"
  by (simp add: readIR_def delta16_def thresholds state_distinct reset_def)

text \<open>
  C7, amended: in \<^verbatim>\<open>STATE_DATA_READY\<close>, every edge on which neither the wraparound check
  nor the timeout check fires is ignored: \<^verbatim>\<open>data\<close>, \<^verbatim>\<open>pulseNum\<close> and \<^verbatim>\<open>state\<close> are
  unchanged, and only the time of the edge is recorded.
\<close>

theorem frame_ready_edge_ignored:
  assumes "state s = STATE_DATA_READY" and "reaches_switch now s"
  shows "readIR now s = s\<lparr>lastRead := now\<rparr>
       \<and> data (readIR now s) = data s
       \<and> pulseNum (readIR now s) = pulseNum s
       \<and> state (readIR now s) = state s"
  using assms by (simp add: readIR_no_abort state_distinct)

theorem frame_ready_edge_ignored_witness:
  "reaches_switch 3000 \<lparr>lastRead = 1000, pulseNum = 32, data = 224, state = STATE_DATA_READY, lastPress = 0\<rparr>
   \<and> readIR 3000 \<lparr>lastRead = 1000, pulseNum = 32, data = 224, state = STATE_DATA_READY, lastPress = 0\<rparr>
     = \<lparr>lastRead = 3000, pulseNum = 32, data = 224, state = STATE_DATA_READY, lastPress = 0\<rparr>"
  using frame_ready_edge_ignored
    [of "\<lparr>lastRead = 1000, pulseNum = 32, data = 224, state = STATE_DATA_READY, lastPress = 0\<rparr>" 3000]
  by (simp add: reaches_switch_def delta16_def)

text \<open>
  C10: in \<^verbatim>\<open>STATE_DATA\<close>, when the wraparound check does not fire, an interval strictly
  between 1480 and 1520, which lies in both windows, is classified as the bit 1: the
  handler continues with \<^verbatim>\<open>dataBit = 1\<close>. For the eight code pulses the bit is visible
  in \<^verbatim>\<open>data\<close>: as bit 1 after the shift for the pulses 16 to 22, as bit 0 for pulse 23.
\<close>

theorem overlap_classified_as_one:
  assumes "state s = STATE_DATA" and "lastRead s = 0 \<or> lastRead s \<le> now"
    and "1480 < delta16 now s" and "delta16 now s < 1520"
  shows "readIR now s = (data_pulse 1 s)\<lparr>lastRead := now\<rparr>
       \<and> (16 \<le> pulseNum s \<and> pulseNum s < 23 \<longrightarrow> bit (data (readIR now s)) 1)
       \<and> (pulseNum s = 23 \<longrightarrow> bit (data (readIR now s)) 0)"
proof -
  from assms(4) have "delta16 now s \<le> 40000" "delta16 now s < 2520"
    by (simp_all add: word_le_nat_alt word_less_nat_alt)
  with assms(2) have "reaches_switch now s"
    by (auto simp add: reaches_switch_def)
  then have r: "readIR now s = (data_pulse 1 s)\<lparr>lastRead := now\<rparr>"
    using assms(1,3) \<open>delta16 now s < 2520\<close> by (simp add: readIR_no_abort state_distinct)
  have b1: "bit (data (readIR now s)) 1" if "16 \<le> pulseNum s \<and> pulseNum s < 23"
  proof -
    from that have "pulseNum s < 24"
      by (simp add: word_less_nat_alt)
    with that show ?thesis
      by (simp add: r data_pulse_def Let_def bit_simps)
  qed
  have b0: "bit (data (readIR now s)) 0" if "pulseNum s = 23"
    using that by (simp add: r data_pulse_def Let_def bit_simps)
  from r b1 b0 show ?thesis by simp
qed

theorem overlap_classified_as_one_witness:
  "delta16 11500 \<lparr>lastRead = 10000, pulseNum = 23, data = 6, state = STATE_DATA, lastPress = 0\<rparr> = 1500
   \<and> readIR 11500 \<lparr>lastRead = 10000, pulseNum = 23, data = 6, state = STATE_DATA, lastPress = 0\<rparr>
     = \<lparr>lastRead = 11500, pulseNum = 24, data = 7, state = STATE_DATA, lastPress = 0\<rparr>
   \<and> bit (data (readIR 11500 \<lparr>lastRead = 10000, pulseNum = 23, data = 6, state = STATE_DATA, lastPress = 0\<rparr>)) 0"
  using overlap_classified_as_one
    [of "\<lparr>lastRead = 10000, pulseNum = 23, data = 6, state = STATE_DATA, lastPress = 0\<rparr>" 11500]
  by (simp add: delta16_def data_pulse_def)

section \<open>Properties of the dispatcher\<close>

lemma handle_events:
  "snd (handleReceivedData now s) = [] \<or> (\<exists>k. snd (handleReceivedData now s) = [HidPress k])"
  by (simp add: handleReceivedData_def)

lemma handle_outcome:
  assumes "\<not> (lastPress s \<noteq> 0 \<and> lastPress s > now)"
  shows "handleReceivedData now s = (s, [])
       \<or> (\<exists>k. handleReceivedData now s = (s\<lparr>lastPress := now\<rparr>, [HidPress k])
             \<and> \<not> (lastPress s \<noteq> 0 \<and> now - lastPress s < PRESS_DELAY))"
  using assms by (auto simp add: handleReceivedData_def)

lemma word_diff_mono:
  assumes "(p :: TS) \<le> a" and "a \<le> t"
  shows "a - p \<le> t - p"
proof -
  from assms have "p \<le> t" by simp
  with assms show ?thesis
    by (simp add: word_le_nat_alt unat_sub)
qed

lemma handle_seq_gaps:
  assumes "sorted (lastPress s # map fst fs)" and "list_all (\<lambda>f. fst f \<noteq> 0) fs"
  shows "list_all (\<lambda>t. lastPress s \<le> t \<and> (lastPress s \<noteq> 0 \<longrightarrow> PRESS_DELAY \<le> t - lastPress s))
           (map fst (handle_seq fs s))
       \<and> all_gaps_ok (map fst (handle_seq fs s))"
  using assms
proof (induction fs arbitrary: s)
  case Nil
  then show ?case by simp
next
  case (Cons f fs)
  obtain now code where f: "f = (now, code)" by (cases f)
  let ?p = "lastPress s"
  let ?s0 = "s\<lparr>data := code\<rparr>"
  from Cons.prems(1) f have le: "?p \<le> now" and srt: "sorted (now # map fst fs)"
    by simp_all
  from Cons.prems(2) f have nz: "now \<noteq> 0" and nzs: "list_all (\<lambda>f. fst f \<noteq> 0) fs"
    by simp_all
  from le srt have srt0: "sorted (?p # map fst fs)"
    by auto
  from le have "\<not> (lastPress ?s0 \<noteq> 0 \<and> lastPress ?s0 > now)"
    by (auto simp add: not_less)
  then consider (dropped) "handleReceivedData now ?s0 = (?s0, [])"
    | (sent) k where "handleReceivedData now ?s0 = (?s0\<lparr>lastPress := now\<rparr>, [HidPress k])"
        "\<not> (?p \<noteq> 0 \<and> now - ?p < PRESS_DELAY)"
    using handle_outcome [of ?s0 now] by auto
  then show ?case
  proof cases
    case dropped
    have "sorted (lastPress ?s0 # map fst fs)" using srt0 by simp
    from Cons.IH [OF this nzs] show ?thesis
      by (simp add: f dropped)
  next
    case sent
    let ?s1 = "?s0\<lparr>lastPress := now\<rparr>"
    let ?R = "map fst (handle_seq fs ?s1)"
    have "sorted (lastPress ?s1 # map fst fs)" using srt by simp
    from Cons.IH [OF this nzs]
    have after: "\<forall>t\<in>set ?R. now \<le> t \<and> PRESS_DELAY \<le> t - now" and gaps: "all_gaps_ok ?R"
      using nz by (simp_all add: list_all_iff)
    have run: "map fst (handle_seq (f # fs) s) = now # ?R"
      by (simp add: f sent)
    have first: "?p \<noteq> 0 \<longrightarrow> PRESS_DELAY \<le> now - ?p"
      using sent(2) by (auto simp add: not_less)
    have rest: "?p \<le> t \<and> (?p \<noteq> 0 \<longrightarrow> PRESS_DELAY \<le> t - ?p)" if "t \<in> set ?R" for t
    proof -
      from after that have t: "now \<le> t" by auto
      with le have "?p \<le> t" by simp
      moreover have "now - ?p \<le> t - ?p" using le t by (rule word_diff_mono)
      ultimately show ?thesis using first by auto
    qed
    show ?thesis
      unfolding run using le first rest after gaps
      by (auto simp add: list_all_iff)
  qed
qed

text \<open>
  C9: when no command has been accepted before (\<^verbatim>\<open>lastPress\<close> is 0), the code byte
  0xE0 sends exactly the volume-up key, 0xD0 the volume-down key and 0xF0 the mute key,
  and the time of the press is recorded; any other code byte sends nothing, whatever
  the value of \<^verbatim>\<open>lastPress\<close>. The same holds for a pass of the main loop over a
  complete frame.
\<close>

theorem recognised_codes_dispatched:
  "(lastPress s = 0 \<and> data s = 0xE0 \<longrightarrow>
      handleReceivedData now s = (s\<lparr>lastPress := now\<rparr>, [HidPress MMKEY_VOL_UP]))
   \<and> (lastPress s = 0 \<and> data s = 0xD0 \<longrightarrow>
      handleReceivedData now s = (s\<lparr>lastPress := now\<rparr>, [HidPress MMKEY_VOL_DOWN]))
   \<and> (lastPress s = 0 \<and> data s = 0xF0 \<longrightarrow>
      handleReceivedData now s = (s\<lparr>lastPress := now\<rparr>, [HidPress MMKEY_MUTE]))
   \<and> (data s \<noteq> 0xE0 \<and> data s \<noteq> 0xD0 \<and> data s \<noteq> 0xF0 \<longrightarrow>
      snd (handleReceivedData now s) = []
      \<and> filter is_press (snd (loop now s)) = [])
   \<and> (state s = STATE_DATA_READY \<and> lastPress s = 0 \<longrightarrow>
      filter is_press (snd (loop now s)) =
        (if data s = 0xE0 then [HidPress MMKEY_VOL_UP]
         else if data s = 0xD0 then [HidPress MMKEY_VOL_DOWN]
         else if data s = 0xF0 then [HidPress MMKEY_MUTE]
         else []))"
  by (simp add: handleReceivedData_def loop_def VOL_UP_def VOL_DOWN_def MUTE_def)

theorem recognised_codes_dispatched_witness:
  "handleReceivedData 5000 \<lparr>lastRead = 0, pulseNum = 32, data = 0xE0, state = STATE_DATA_READY, lastPress = 0\<rparr>
     = (\<lparr>lastRead = 0, pulseNum = 32, data = 0xE0, state = STATE_DATA_READY, lastPress = 5000\<rparr>,
        [HidPress MMKEY_VOL_UP])
   \<and> handleReceivedData 5000 \<lparr>lastRead = 0, pulseNum = 32, data = 0xD0, state = STATE_DATA_READY, lastPress = 0\<rparr>
     = (\<lparr>lastRead = 0, pulseNum = 32, data = 0xD0, state = STATE_DATA_READY, lastPress = 5000\<rparr>,
        [HidPress MMKEY_VOL_DOWN])
   \<and> handleReceivedData 5000 \<lparr>lastRead = 0, pulseNum = 32, data = 0xF0, state = STATE_DATA_READY, lastPress = 0\<rparr>
     = (\<lparr>lastRead = 0, pulseNum = 32, data = 0xF0, state = STATE_DATA_READY, lastPress = 5000\<rparr>,
        [HidPress MMKEY_MUTE])
   \<and> snd (handleReceivedData 5000 \<lparr>lastRead = 0, pulseNum = 32, data = 0x10, state = STATE_DATA_READY, lastPress = 0\<rparr>)
     = []
   \<and> filter is_press (snd (loop 5000 \<lparr>lastRead = 0, pulseNum = 32, data = 0xE0, state = STATE_DATA_READY, lastPress = 0\<rparr>))
     = [HidPress MMKEY_VOL_UP]"
  using
    recognised_codes_dispatched
      [of "\<lparr>lastRead = 0, pulseNum = 32, data = 0xE0, state = STATE_DATA_READY, lastPress = 0\<rparr>" 5000]
    recognised_codes_dispatched
      [of "\<lparr>lastRead = 0, pulseNum = 32, data = 0xD0, state = STATE_DATA_READY, lastPress = 0\<rparr>" 5000]
    recognised_codes_dispatched
      [of "\<lparr>lastRead = 0, pulseNum = 32, data = 0xF0, state = STATE_DATA_READY, lastPress = 0\<rparr>" 5000]
    recognised_codes_dispatched
      [of "\<lparr>lastRead = 0, pulseNum = 32, data = 0x10, state = STATE_DATA_READY, lastPress = 0\<rparr>" 5000]
  by simp

text \<open>
  C3, as the claim states it, fails: the main loop calls \<^verbatim>\<open>handleReceivedData()\<close>
  first and \<^verbatim>\<open>reset()\<close> after it. On a complete frame with code 224 the key press is
  sent to the HID sink before the decoder is reset.
\<close>

theorem loop_reset_order_counterexample:
  "state \<lparr>lastRead = 70000, pulseNum = 32, data = 224, state = STATE_DATA_READY, lastPress = 0\<rparr>
     = STATE_DATA_READY
   \<and> snd (loop 1000 \<lparr>lastRead = 70000, pulseNum = 32, data = 224, state = STATE_DATA_READY, lastPress = 0\<rparr>)
     = [HidPress MMKEY_VOL_UP, DecoderReset, HidPoll]
   \<and> \<not> reset_before_press
         (snd (loop 1000 \<lparr>lastRead = 70000, pulseNum = 32, data = 224, state = STATE_DATA_READY, lastPress = 0\<rparr>))"
  by (simp add: loop_def handleReceivedData_def reset_before_press_def VOL_UP_def)

text \<open>
  C3, amended: when the main loop observes \<^verbatim>\<open>STATE_DATA_READY\<close>, it first lets
  \<^verbatim>\<open>handleReceivedData()\<close> read \<^verbatim>\<open>data\<close> in place, debounce and send the key press, and
  then calls \<^verbatim>\<open>reset()\<close>. The reset is unconditional: it is made whether or not a key was
  sent, and it leaves the decoder in its initial state; but it comes after the call to
  the HID sink, not before it.
\<close>

theorem loop_handles_then_resets:
  assumes "state s = STATE_DATA_READY"
  shows "snd (loop now s) = snd (handleReceivedData now s) @ [DecoderReset, HidPoll]
       \<and> press_before_reset (snd (loop now s))
       \<and> fst (loop now s) = reset (fst (handleReceivedData now s))
       \<and> lastRead (fst (loop now s)) = 0
       \<and> pulseNum (fst (loop now s)) = 0
       \<and> data (fst (loop now s)) = 0
       \<and> state (fst (loop now s)) = STATE_NEED_START"
proof -
  obtain s1 evs where h: "handleReceivedData now s = (s1, evs)"
    by (cases "handleReceivedData now s")
  with handle_events [of now s] have evs: "evs = [] \<or> (\<exists>k. evs = [HidPress k])"
    by simp
  have l: "loop now s = (reset s1, evs @ [DecoderReset, HidPoll])"
    using assms by (simp add: loop_def h)
  from evs have "press_before_reset (evs @ [DecoderReset, HidPoll])"
    by (auto simp add: press_before_reset_def)
  then show ?thesis
    by (simp add: l h reset_def)
qed

theorem loop_handles_then_resets_witness:
  "loop 1000 \<lparr>lastRead = 70000, pulseNum = 32, data = 224, state = STATE_DATA_READY, lastPress = 0\<rparr>
     = (\<lparr>lastRead = 0, pulseNum = 0, data = 0, state = STATE_NEED_START, lastPress = 1000\<rparr>,
        [HidPress MMKEY_VOL_UP, DecoderReset, HidPoll])
   \<and> press_before_reset
        (snd (loop 1000 \<lparr>lastRead = 70000, pulseNum = 32, data = 224, state = STATE_DATA_READY, lastPress = 0\<rparr>))"
proof -
  let ?s = "\<lparr>lastRead = 70000, pulseNum = 32, data = 224, state = STATE_DATA_READY, lastPress = 0\<rparr>"
  have h: "handleReceivedData 1000 ?s = (?s\<lparr>lastPress := 1000\<rparr>, [HidPress MMKEY_VOL_UP])"
    by (simp add: handleReceivedData_def VOL_UP_def)
  have "state ?s = STATE_DATA_READY" by simp
  from loop_handles_then_resets [OF this, of 1000] show ?thesis
    by (simp add: h reset_def prod_eq_iff press_before_reset_def)
qed

text \<open>
  C5, as the claim states it, fails across a wraparound of the millisecond clock. A
  command is accepted at time 4294967286, ten milliseconds before the clock wraps. The
  next frame, handled at time 5, finds \<^verbatim>\<open>lastPress\<close> greater than the time: it is
  dropped, and \<^verbatim>\<open>lastPress\<close> is cleared, so a dropped command does update it. The third
  frame, at time 20, is then accepted, 30 milliseconds after the first.
\<close>

theorem debounce_wraparound_counterexample:
  "map fst (handle_seq [(4294967286, 224), (5, 224), (20, 224)]
       \<lparr>lastRead = 0, pulseNum = 0, data = 0, state = STATE_NEED_START, lastPress = 0\<rparr>)
     = [4294967286, 20]
   \<and> (20 :: TS) - 4294967286 = 30
   \<and> \<not> all_gaps_ok (map fst (handle_seq [(4294967286, 224), (5, 224), (20, 224)]
       \<lparr>lastRead = 0, pulseNum = 0, data = 0, state = STATE_NEED_START, lastPress = 0\<rparr>))
   \<and> handleReceivedData 5
       \<lparr>lastRead = 0, pulseNum = 0, data = 224, state = STATE_NEED_START, lastPress = 4294967286\<rparr>
     = (\<lparr>lastRead = 0, pulseNum = 0, data = 224, state = STATE_NEED_START, lastPress = 0\<rparr>, [])"
  by (simp add: handleReceivedData_def VOL_UP_def PRESS_DELAY_def)

text \<open>
  C5, amended: as long as the millisecond clock does not wrap (the times at which the
  frames are handled do not decrease) and no frame is handled at the time 0, which
  stands for ``no command yet'', any two key presses sent to the HID sink are at least
  200 ms apart. A command handled less than 200 ms after the last accepted one, with
  the last accepted time non-zero and not in the future, is dropped and leaves
  \<^verbatim>\<open>lastPress\<close>, and the whole state, as it was.
\<close>

theorem debounce_min_gap:
  assumes "sorted (map fst fs)" and "list_all (\<lambda>f. fst f \<noteq> 0) fs" and "lastPress s = 0"
  shows "all_gaps_ok (map fst (handle_seq fs s))
       \<and> (lastPress s' \<noteq> 0 \<and> lastPress s' \<le> now \<and> now - lastPress s' < PRESS_DELAY \<longrightarrow>
            handleReceivedData now s' = (s', []))"
proof -
  from assms(1,3) have "sorted (lastPress s # map fst fs)"
    by simp
  from handle_seq_gaps [OF this assms(2)] have "all_gaps_ok (map fst (handle_seq fs s))"
    by simp
  moreover have "handleReceivedData now s' = (s', [])"
    if "lastPress s' \<noteq> 0 \<and> lastPress s' \<le> now \<and> now - lastPress s' < PRESS_DELAY"
    using that by (simp add: handleReceivedData_def not_less [symmetric])
  ultimately show ?thesis by simp
qed

theorem debounce_min_gap_witness:
  "map fst (handle_seq [(1000, 224), (1100, 224), (1250, 208)]
       \<lparr>lastRead = 0, pulseNum = 0, data = 0, state = STATE_NEED_START, lastPress = 0\<rparr>)
     = [1000, 1250]
   \<and> all_gaps_ok (map fst (handle_seq [(1000, 224), (1100, 224), (1250, 208)]
       \<lparr>lastRead = 0, pulseNum = 0, data = 0, state = STATE_NEED_START, lastPress = 0\<rparr>))
   \<and> handleReceivedData 1100
       \<lparr>lastRead = 0, pulseNum = 0, data = 224, state = STATE_NEED_START, lastPress = 1000\<rparr>
     = (\<lparr>lastRead = 0, pulseNum = 0, data = 224, state = STATE_NEED_START, lastPress = 1000\<rparr>, [])"
proof -
  let ?fs = "[(1000, 224), (1100, 224), (1250, 208)] :: (TS \<times> uint8) list"
  let ?s = "\<lparr>lastRead = 0, pulseNum = 0, data = 0, state = STATE_NEED_START, lastPress = 0\<rparr>"
  let ?s' = "\<lparr>lastRead = 0, pulseNum = 0, data = 224, state = STATE_NEED_START, lastPress = 1000\<rparr>"
  have h1: "sorted (map fst ?fs)" by simp
  have h2: "list_all (\<lambda>f. fst f \<noteq> 0) ?fs" by simp
  have h3: "lastPress ?s = 0" by simp
  have run: "map fst (handle_seq ?fs ?s) = [1000, 1250]"
    by (simp add: handleReceivedData_def VOL_UP_def VOL_DOWN_def PRESS_DELAY_def)
  from debounce_min_gap [OF h1 h2 h3, of ?s' 1100] run show ?thesis
    by (simp add: PRESS_DELAY_def)
qed

end
